theory Spec2Isabelle
  imports Main "HOL-Library.AList" "HOL-Library.Char_ord" "HOL-Library.List_Lexorder"
    "HOL-Library.Sublist"
    "HOL-Library.Multiset" "HOL-Library.Word"
begin

unbundle bit_operations_syntax

section \<open>Python values shared by the modules\<close>

text \<open>
  An exception is its class name and the text \<open>str(e)\<close> gives.  A call that may raise
  returns \<open>exn + 'a\<close>, with \<open>Inl\<close> for the exception.  A \<open>dict\<close> is an association
  list in insertion order: \<open>d.get(k)\<close> is \<open>map_of d k\<close> and \<open>d[k] = v\<close> is
  \<open>AList.update k v d\<close> (the value is replaced in place when the key is there, and appended
  otherwise).
\<close>

datatype exn = PyExc (exc_class: string) (exc_str: string)

type_synonym 'a result = "exn + 'a"

type_synonym datetime = nat

text \<open>
  A \<open>str\<close> is a list of characters with code points below 256.  \<open>join\<close> is
  \<open>sep.join(xs)\<close>, \<open>contains needle s\<close> is \<open>needle in s\<close>, \<open>str_int\<close> is \<open>str\<close> of an
  \<open>int\<close>.
\<close>

fun join :: "string \<Rightarrow> string list \<Rightarrow> string" where
  "join sep [] = []"
| "join sep [x] = x"
| "join sep (x # y # ys) = x @ sep @ join sep (y # ys)"

fun contains :: "string \<Rightarrow> string \<Rightarrow> bool" where
  "contains needle [] = (needle = [])"
| "contains needle (c # cs) = (prefix needle (c # cs) \<or> contains needle cs)"

definition digit_char :: "nat \<Rightarrow> char" where
  "digit_char n = ''0123456789'' ! (n mod 10)"

function str_nat :: "nat \<Rightarrow> string" where
  "str_nat n = (if n < 10 then [digit_char n] else str_nat (n div 10) @ [digit_char n])"
  by pat_completeness auto
termination
  by (relation "measure id") auto

declare str_nat.simps [simp del]

definition str_int :: "int \<Rightarrow> string" where
  "str_int i = (if i < 0 then ''-'' @ str_nat (nat (- i)) else str_nat (nat i))"

definition hexdigit :: "nat \<Rightarrow> char" where
  "hexdigit n = ''0123456789abcdef'' ! (n mod 16)"

section \<open>The values json.loads gives, and json.dumps\<close>

text \<open>
  The fields of an issue that the dataclass types as \<open>Any\<close> hold what \<open>json.loads\<close>
  returned; floats are left out.  \<open>json_dumps\<close> is
  \<open>json.dumps(v, sort_keys=True, default=str)\<close>: the separators are \<open>', '\<close> and
  \<open>': '\<close>, the keys of every object are sorted, and \<open>ensure_ascii\<close> escapes the quote,
  the backslash and every character outside \<open>' '..'~'\<close>.
\<close>

datatype json =
    JNull
  | JBool bool
  | JInt int
  | JStr string
  | JArr "json list"
  | JObj "(string \<times> json) list"

definition esc_char :: "char \<Rightarrow> string" where
  "esc_char c =
     (if c = CHR 0x22 then [CHR 0x5C, CHR 0x22]
      else if c = CHR 0x5C then [CHR 0x5C, CHR 0x5C]
      else if c = CHR 0x0A then [CHR 0x5C, CHR ''n'']
      else if c = CHR 0x0D then [CHR 0x5C, CHR ''r'']
      else if c = CHR 0x09 then [CHR 0x5C, CHR ''t'']
      else if c = CHR 0x08 then [CHR 0x5C, CHR ''b'']
      else if c = CHR 0x0C then [CHR 0x5C, CHR ''f'']
      else if 0x20 \<le> (of_char c :: nat) \<and> (of_char c :: nat) \<le> 0x7E then [c]
      else [CHR 0x5C, CHR ''u'', CHR ''0'', CHR ''0'',
            hexdigit ((of_char c :: nat) div 16), hexdigit (of_char c)])"

definition json_string :: "string \<Rightarrow> string" where
  "json_string s = [CHR 0x22] @ concat (map esc_char s) @ [CHR 0x22]"

lemma size_json_arr: "x \<in> set xs \<Longrightarrow> size x < Suc (size_list size xs)"
  by (induction xs) auto

lemma size_json_obj:
  "(k, v) \<in> set kvs \<Longrightarrow> size v < Suc (size_list (size_prod (\<lambda>x. 0) size) kvs)"
  by (induction kvs) auto

function json_dumps :: "json \<Rightarrow> string" where
  "json_dumps JNull = ''null''"
| "json_dumps (JBool b) = (if b then ''true'' else ''false'')"
| "json_dumps (JInt n) = str_int n"
| "json_dumps (JStr s) = json_string s"
| "json_dumps (JArr xs) = ''['' @ join '', '' (map json_dumps xs) @ '']''"
| "json_dumps (JObj kvs) =
     ''{'' @ join '', '' (map (\<lambda>(k, v). json_string k @ '': '' @ json_dumps v)
                           (sort_key fst kvs)) @ ''}''"
  by pat_completeness auto
termination
  by (relation "measure size") (auto simp: size_json_arr size_json_obj)

section \<open>hashlib.sha256\<close>

text \<open>
  \<open>sha256_hexdigest s\<close> is \<open>hashlib.sha256(s.encode()).hexdigest()\<close>: SHA-256 of the
  UTF-8 bytes of the text, as 64 lower-case hexadecimal digits.  \<open>K256\<close> holds the first
  32 bits of the fractional parts of the cube roots of the first 64 primes, \<open>H256\<close> those
  of the square roots of the first 8, both written in decimal.
\<close>

type_synonym w32 = "32 word"

definition Ch :: "w32 \<Rightarrow> w32 \<Rightarrow> w32 \<Rightarrow> w32" where
  "Ch x y z = (x AND y) XOR (NOT x AND z)"

definition Maj :: "w32 \<Rightarrow> w32 \<Rightarrow> w32 \<Rightarrow> w32" where
  "Maj x y z = (x AND y) XOR (x AND z) XOR (y AND z)"

definition Sigma0 :: "w32 \<Rightarrow> w32" where
  "Sigma0 x = word_rotr 2 x XOR word_rotr 13 x XOR word_rotr 22 x"

definition Sigma1 :: "w32 \<Rightarrow> w32" where
  "Sigma1 x = word_rotr 6 x XOR word_rotr 11 x XOR word_rotr 25 x"

definition sigma0 :: "w32 \<Rightarrow> w32" where
  "sigma0 x = word_rotr 7 x XOR word_rotr 18 x XOR drop_bit 3 x"

definition sigma1 :: "w32 \<Rightarrow> w32" where
  "sigma1 x = word_rotr 17 x XOR word_rotr 19 x XOR drop_bit 10 x"

definition K256 :: "w32 list" where
  "K256 =
    [1116352408, 1899447441, 3049323471, 3921009573, 961987163, 1508970993,
     2453635748, 2870763221, 3624381080, 310598401, 607225278, 1426881987,
     1925078388, 2162078206, 2614888103, 3248222580, 3835390401, 4022224774,
     264347078, 604807628, 770255983, 1249150122, 1555081692, 1996064986,
     2554220882, 2821834349, 2952996808, 3210313671, 3336571891, 3584528711,
     113926993, 338241895, 666307205, 773529912, 1294757372, 1396182291,
     1695183700, 1986661051, 2177026350, 2456956037, 2730485921, 2820302411,
     3259730800, 3345764771, 3516065817, 3600352804, 4094571909, 275423344,
     430227734, 506948616, 659060556, 883997877, 958139571, 1322822218,
     1537002063, 1747873779, 1955562222, 2024104815, 2227730452, 2361852424,
     2428436474, 2756734187, 3204031479, 3329325298]"

type_synonym hstate = "w32 \<times> w32 \<times> w32 \<times> w32 \<times> w32 \<times> w32 \<times> w32 \<times> w32"

definition H256 :: hstate where
  "H256 = (1779033703, 3144134277, 1013904242, 2773480762,
     1359893119, 2600822924, 528734635, 1541459225)"

definition be64 :: "nat \<Rightarrow> 8 word list" where
  "be64 n =
     (let w = of_nat n :: 64 word
      in map (\<lambda>i. ucast (drop_bit (8 * i) w)) [7, 6, 5, 4, 3, 2, 1, 0])"

definition pad :: "8 word list \<Rightarrow> 8 word list" where
  "pad bs =
     bs @ [0x80] @ replicate ((64 - (length bs + 9) mod 64) mod 64) 0 @ be64 (8 * length bs)"

fun be_words :: "8 word list \<Rightarrow> w32 list" where
  "be_words (a # b # c # d # bs) =
     (push_bit 24 (ucast a) OR push_bit 16 (ucast b) OR push_bit 8 (ucast c) OR ucast d)
       # be_words bs"
| "be_words _ = []"

fun extend :: "nat \<Rightarrow> w32 list \<Rightarrow> w32 list" where
  "extend 0 w = w"
| "extend (Suc n) w =
     (let t = length w
      in extend n
           (w @ [sigma1 (w ! (t - 2)) + w ! (t - 7) + sigma0 (w ! (t - 15)) + w ! (t - 16)]))"

definition sha_round :: "hstate \<Rightarrow> w32 \<times> w32 \<Rightarrow> hstate" where
  "sha_round s kw =
     (case s of (a, b, c, d, e, f, g, h) \<Rightarrow>
        (let T1 = h + Sigma1 e + Ch e f g + fst kw + snd kw;
             T2 = Sigma0 a + Maj a b c
         in (T1 + T2, a, b, c, d + T1, e, f, g)))"

definition compress :: "hstate \<Rightarrow> w32 list \<Rightarrow> hstate" where
  "compress s block =
     (case (s, foldl sha_round s (zip K256 (extend 48 block))) of
        ((a, b, c, d, e, f, g, h), (a', b', c', d', e', f', g', h')) \<Rightarrow>
          (a + a', b + b', c + c', d + d', e + e', f + f', g + g', h + h'))"

fun chunks :: "nat \<Rightarrow> 'a list \<Rightarrow> 'a list list" where
  "chunks 0 ws = []"
| "chunks (Suc n) ws = take 16 ws # chunks n (drop 16 ws)"

definition sha256 :: "8 word list \<Rightarrow> hstate" where
  "sha256 bs =
     (let ws = be_words (pad bs)
      in foldl compress H256 (chunks (length ws div 16) ws))"

definition hex32 :: "w32 \<Rightarrow> string" where
  "hex32 w = map (\<lambda>i. hexdigit (unat (drop_bit (4 * i) w AND 15))) [7, 6, 5, 4, 3, 2, 1, 0]"

definition hexdigest :: "hstate \<Rightarrow> string" where
  "hexdigest s =
     (case s of (a, b, c, d, e, f, g, h) \<Rightarrow>
        hex32 a @ hex32 b @ hex32 c @ hex32 d @ hex32 e @ hex32 f @ hex32 g @ hex32 h)"

definition encode :: "string \<Rightarrow> 8 word list" where
  "encode s =
     concat (map (\<lambda>c. let n = of_char c :: nat
                       in if n < 128 then [of_nat n]
                          else [of_nat (192 + n div 64), of_nat (128 + n mod 64)]) s)"

definition sha256_hexdigest :: "string \<Rightarrow> string" where
  "sha256_hexdigest s = hexdigest (sha256 (encode s))"

section \<open>models.py: SyncAction, SyncStatus, SyncRecord, SyncState\<close>

datatype SyncAction = CREATE | UPDATE | SKIP | CLOSE

datatype SyncStatus = PENDING | IN_PROGRESS | COMPLETED | FAILED | SKIPPED

text \<open>
  The fields of \<open>Issue\<close> carry the prefix \<open>i_\<close>, those of \<open>SyncRecord\<close> the prefix \<open>r_\<close> and
  those of the \<open>GitHub*\<close> classes the prefix \<open>gh_\<close>; a \<open>dict[str, Any]\<close> is a list of
  pairs of a key and a \<open>json\<close> value, a \<open>Path\<close> its text.
\<close>

record Issue =
  i_id :: string
  i_title :: string
  i_type :: string
  i_status :: string
  i_priority :: string
  i_labels :: "string list"
  i_milestone :: string
  i_description :: string
  i_acceptance_criteria :: "json list"
  i_epic :: "string option"
  i_depends_on :: "string list"
  i_blocks :: "string list"
  i_user_story :: "string option"
  i_technical_context :: "(string \<times> json) list"
  i_state_machine :: "(string \<times> json) list option"
  i_out_of_scope :: "string list"
  i_open_questions :: "string list"
  i_estimate :: "(string \<times> json) list option"
  i_children :: "string list"
  i_goals :: "string list"
  i_design_principles :: "string list"
  i_visual_mockups :: "(string \<times> json) list option"
  i_interaction_patterns :: "(string \<times> json) list option"
  i_responsive_behavior :: "(string \<times> json) list option"
  i_source_file :: "string option"
  i_github_number :: "int option"

definition json_opt_str :: "string option \<Rightarrow> json" where
  "json_opt_str v = (case v of None \<Rightarrow> JNull | Some s \<Rightarrow> JStr s)"

definition json_opt_dict :: "(string \<times> json) list option \<Rightarrow> json" where
  "json_opt_dict v = (case v of None \<Rightarrow> JNull | Some d \<Rightarrow> JObj d)"

definition hashable_dict :: "Issue \<Rightarrow> json" where
  "hashable_dict i =
     JObj [(''id'', JStr (i_id i)),
           (''title'', JStr (i_title i)),
           (''type'', JStr (i_type i)),
           (''priority'', JStr (i_priority i)),
           (''labels'', JArr (map JStr (sort (i_labels i)))),
           (''description'', JStr (i_description i)),
           (''acceptance_criteria'', JArr (i_acceptance_criteria i)),
           (''epic'', json_opt_str (i_epic i)),
           (''depends_on'', JArr (map JStr (sort (i_depends_on i)))),
           (''user_story'', json_opt_str (i_user_story i)),
           (''technical_context'', JObj (i_technical_context i)),
           (''state_machine'', json_opt_dict (i_state_machine i)),
           (''out_of_scope'', JArr (map JStr (i_out_of_scope i))),
           (''goals'', JArr (map JStr (i_goals i)))]"

definition content_hash :: "Issue \<Rightarrow> string" where
  "content_hash i = take 16 (sha256_hexdigest (json_dumps (hashable_dict i)))"

text \<open>
  \<open>to_markdown\<close>.  Four of its sections format fields typed \<open>Any\<close> by indexing and
  iterating them, and the header formats the estimate's points with \<open>str\<close>; what they
  return (or raise) is taken from \<open>rendering\<close>, as is \<open>str.upper\<close>.  Every other section
  is written out.  A section is rendered only when its field is true (\<open>when_true\<close>), in
  the order of the source, and the first exception ends the rendering.
\<close>

record rendering =
  acceptance_criteria_section :: "json list \<Rightarrow> string result"
  state_machine_section :: "(string \<times> json) list \<Rightarrow> string result"
  technical_context_section :: "(string \<times> json) list \<Rightarrow> string result"
  visual_mockups_section :: "(string \<times> json) list \<Rightarrow> string result"
  py_str :: "json \<Rightarrow> string"
  upper :: "string \<Rightarrow> string"

definition header :: "rendering \<Rightarrow> Issue \<Rightarrow> string" where
  "header R i =
     join '' | ''
       ([''**'' @ i_id i @ ''**'']
        @ (case i_epic i of
             None \<Rightarrow> []
           | Some epic \<Rightarrow> if epic \<noteq> [] then [''Epic: '' @ epic] else [])
        @ (case i_estimate i of
             None \<Rightarrow> []
           | Some estimate \<Rightarrow>
               if estimate \<noteq> []
               then [''Estimate: ''
                     @ (case map_of estimate ''points'' of
                          None \<Rightarrow> ''?''
                        | Some v \<Rightarrow> py_str R v)
                     @ '' pts'']
               else []))"

definition body :: "Issue \<Rightarrow> string" where
  "body i =
     join ''\<newline>''
       ((if i_goals i \<noteq> []
         then [''### Goals\<newline>''] @ map (\<lambda>g. ''- '' @ g) (i_goals i) @ [[]]
         else [])
        @ [i_description i])"

definition user_story_section :: "string \<Rightarrow> string" where
  "user_story_section user_story = ''### User Story\<newline>\<newline>> '' @ user_story"

definition out_of_scope_section :: "Issue \<Rightarrow> string" where
  "out_of_scope_section i =
     join ''\<newline>'' ([''### Out of Scope\<newline>''] @ map (\<lambda>item. ''- '' @ item) (i_out_of_scope i))"

definition open_questions_section :: "Issue \<Rightarrow> string" where
  "open_questions_section i =
     join ''\<newline>''
       ([''### Open Questions\<newline>''] @ map (\<lambda>q. ''- [ ] '' @ q) (i_open_questions i))"

definition metadata_section :: "Issue \<Rightarrow> string" where
  "metadata_section i =
     join ''\<newline>''
       (filter (\<lambda>l. l \<noteq> [])
          ([''---'',
            (case i_source_file i of
               Some f \<Rightarrow> ''*Source: `'' @ f @ ''`*''
             | None \<Rightarrow> [])]
           @ [''*Content Hash: `'' @ content_hash i @ ''`*'']))"

definition when_true :: "'a list option \<Rightarrow> ('a list \<Rightarrow> string result) \<Rightarrow> string result option" where
  "when_true v section =
     (case v of
        None \<Rightarrow> None
      | Some x \<Rightarrow> if x \<noteq> [] then Some (section x) else None)"

fun sections_of :: "string result option list \<Rightarrow> string list result" where
  "sections_of [] = Inr []"
| "sections_of (None # rest) = sections_of rest"
| "sections_of (Some (Inl e) # rest) = Inl e"
| "sections_of (Some (Inr s) # rest) =
     (case sections_of rest of
        Inl e \<Rightarrow> Inl e
      | Inr ss \<Rightarrow> Inr (s # ss))"

definition to_markdown :: "rendering \<Rightarrow> Issue \<Rightarrow> string result" where
  "to_markdown R i =
     (case sections_of
         [Some (Inr (header R i)),
          Some (Inr (body i)),
          when_true (i_user_story i) (\<lambda>u. Inr (user_story_section u)),
          when_true (Some (i_acceptance_criteria i)) (acceptance_criteria_section R),
          when_true (i_state_machine i) (state_machine_section R),
          when_true (Some (i_technical_context i)) (technical_context_section R),
          when_true (i_visual_mockups i) (visual_mockups_section R),
          when_true (Some (i_out_of_scope i)) (\<lambda>x. Inr (out_of_scope_section i)),
          when_true (Some (i_open_questions i)) (\<lambda>x. Inr (open_questions_section i)),
          Some (Inr (metadata_section i))] of
        Inl e \<Rightarrow> Inl e
      | Inr sections \<Rightarrow>
          Inr (join ''\<newline>\<newline>'' (filter (\<lambda>s. s \<noteq> []) sections)))"

record SyncRecord =
  r_issue_id :: string
  r_action :: SyncAction
  r_status :: SyncStatus
  r_github_number :: "int option"
  r_content_hash :: "string option"
  r_error :: "string option"
  r_timestamp :: datetime

record SyncState =
  run_id :: string
  started_at :: datetime
  completed_at :: "datetime option"
  records :: "(string \<times> SyncRecord) list"

definition is_completed :: "SyncState \<Rightarrow> string \<Rightarrow> bool" where
  "is_completed s issue_id =
     (case map_of (records s) issue_id of
        None \<Rightarrow> False
      | Some record \<Rightarrow> r_status record = COMPLETED)"

definition needs_sync :: "SyncState \<Rightarrow> Issue \<Rightarrow> bool" where
  "needs_sync s issue =
     (case map_of (records s) (i_id issue) of
        None \<Rightarrow> True
      | Some record \<Rightarrow>
          (if r_status record \<noteq> COMPLETED then True
           else r_content_hash record \<noteq> Some (content_hash issue)))"

section \<open>state.py: StateManager\<close>

text \<open>
  The state file is held as what \<open>SyncState.from_dict(json.loads(text))\<close> makes of its
  text: a state, or the exception the parse raises.  \<open>None\<close> is a file that does not
  exist.  \<open>utcnow\<close> is the instant the next call of \<open>datetime.utcnow()\<close> returns (each
  call advances it), \<open>uuid4\<close> the text of the next \<open>uuid.uuid4()\<close>.  Errors of the file
  system on writing are not modelled.
\<close>

datatype stored = Corrupt exn | Stored SyncState

record StateManager =
  state_file :: "stored option"
  priv_state :: "SyncState option"
  utcnow :: datetime
  uuid4 :: string

definition read_utcnow :: "StateManager \<Rightarrow> datetime \<times> StateManager" where
  "read_utcnow m = (utcnow m, m\<lparr>utcnow := Suc (utcnow m)\<rparr>)"

definition load_or_create :: "StateManager \<Rightarrow> SyncState result \<times> StateManager" where
  "load_or_create m =
     (case state_file m of
        Some (Corrupt e) \<Rightarrow> (Inl e, m)
      | Some (Stored s) \<Rightarrow> (Inr s, m)
      | None \<Rightarrow>
          (let (now, m') = read_utcnow m
           in (Inr \<lparr>run_id = take 8 (uuid4 m), started_at = now,
                     completed_at = None, records = []\<rparr>, m')))"

text \<open>The property \<open>state\<close>: the state is loaded at the first access and kept.\<close>

definition state_get :: "StateManager \<Rightarrow> SyncState result \<times> StateManager" where
  "state_get m =
     (case priv_state m of
        Some s \<Rightarrow> (Inr s, m)
      | None \<Rightarrow>
          (case load_or_create m of
             (Inl e, m') \<Rightarrow> (Inl e, m')
           | (Inr s, m') \<Rightarrow> (Inr s, m'\<lparr>priv_state := Some s\<rparr>)))"

definition save :: "StateManager \<Rightarrow> unit result \<times> StateManager" where
  "save m =
     (case state_get m of
        (Inl e, m') \<Rightarrow> (Inl e, m')
      | (Inr s, m') \<Rightarrow> (Inr (), m'\<lparr>state_file := Some (Stored s)\<rparr>))"

definition reset :: "StateManager \<Rightarrow> StateManager" where
  "reset m = m\<lparr>state_file := None, priv_state := None\<rparr>"

text \<open>
  \<open>mark_started\<close> builds the new record first (its \<open>timestamp\<close> default reads the
  clock), then reaches the state and stores the record under the id.
\<close>

definition mark_started ::
  "StateManager \<Rightarrow> string \<Rightarrow> SyncAction \<Rightarrow> unit result \<times> StateManager" where
  "mark_started m issue_id action =
     (let (now, m1) = read_utcnow m;
          record = \<lparr>r_issue_id = issue_id, r_action = action, r_status = IN_PROGRESS,
                    r_github_number = None, r_content_hash = None, r_error = None,
                    r_timestamp = now\<rparr>
      in case state_get m1 of
           (Inl e, m2) \<Rightarrow> (Inl e, m2)
         | (Inr s, m2) \<Rightarrow>
             save (m2\<lparr>priv_state :=
                        Some (s\<lparr>records := AList.update issue_id record (records s)\<rparr>)\<rparr>))"

definition mark_completed ::
  "StateManager \<Rightarrow> string \<Rightarrow> int \<Rightarrow> string \<Rightarrow> unit result \<times> StateManager" where
  "mark_completed m issue_id github_number hash =
     (case state_get m of
        (Inl e, m1) \<Rightarrow> (Inl e, m1)
      | (Inr s, m1) \<Rightarrow>
          (case map_of (records s) issue_id of
             None \<Rightarrow> save m1
           | Some record \<Rightarrow>
               (let (now, m2) = read_utcnow m1;
                    record' = record\<lparr>r_status := COMPLETED,
                                     r_github_number := Some github_number,
                                     r_content_hash := Some hash,
                                     r_timestamp := now\<rparr>
                in save (m2\<lparr>priv_state :=
                     Some (s\<lparr>records := AList.update issue_id record' (records s)\<rparr>)\<rparr>))))"

definition mark_failed ::
  "StateManager \<Rightarrow> string \<Rightarrow> string \<Rightarrow> unit result \<times> StateManager" where
  "mark_failed m issue_id error =
     (case state_get m of
        (Inl e, m1) \<Rightarrow> (Inl e, m1)
      | (Inr s, m1) \<Rightarrow>
          (case map_of (records s) issue_id of
             None \<Rightarrow> save m1
           | Some record \<Rightarrow>
               (let (now, m2) = read_utcnow m1;
                    record' = record\<lparr>r_status := FAILED, r_error := Some error,
                                     r_timestamp := now\<rparr>
                in save (m2\<lparr>priv_state :=
                     Some (s\<lparr>records := AList.update issue_id record' (records s)\<rparr>)\<rparr>))))"

definition mark_skipped ::
  "StateManager \<Rightarrow> string \<Rightarrow> int option \<Rightarrow> unit result \<times> StateManager" where
  "mark_skipped m issue_id github_number =
     (case state_get m of
        (Inl e, m1) \<Rightarrow> (Inl e, m1)
      | (Inr s, m1) \<Rightarrow>
          (case map_of (records s) issue_id of
             None \<Rightarrow> save m1
           | Some record \<Rightarrow>
               (let (now, m2) = read_utcnow m1;
                    record' = record\<lparr>r_status := SKIPPED, r_github_number := github_number,
                                     r_timestamp := now\<rparr>
                in save (m2\<lparr>priv_state :=
                     Some (s\<lparr>records := AList.update issue_id record' (records s)\<rparr>)\<rparr>))))"


definition get_github_number :: "StateManager \<Rightarrow> string \<Rightarrow> int option result \<times> StateManager" where
  "get_github_number m issue_id =
     (case state_get m of
        (Inl e, m1) \<Rightarrow> (Inl e, m1)
      | (Inr s, m1) \<Rightarrow>
          (Inr (case map_of (records s) issue_id of
                  None \<Rightarrow> None
                | Some record \<Rightarrow> r_github_number record), m1))"


text \<open>
  For stating properties: the record the store holds for an id (in the loaded state, or in
  the file when the state is not loaded), whether reaching the state succeeds, and the
  four record operations as one type.
\<close>

definition record_of :: "StateManager \<Rightarrow> string \<Rightarrow> SyncRecord option" where
  "record_of m issue_id =
     (case priv_state m of
        Some s \<Rightarrow> map_of (records s) issue_id
      | None \<Rightarrow>
          (case state_file m of
             Some (Stored s) \<Rightarrow> map_of (records s) issue_id
           | _ \<Rightarrow> None))"

definition loadable :: "StateManager \<Rightarrow> bool" where
  "loadable m =
     (case priv_state m of
        Some s \<Rightarrow> True
      | None \<Rightarrow> (case state_file m of Some (Corrupt e) \<Rightarrow> False | _ \<Rightarrow> True))"

definition status_of :: "StateManager \<Rightarrow> string \<Rightarrow> SyncStatus option" where
  "status_of m issue_id = map_option r_status (record_of m issue_id)"

definition terminal :: "SyncStatus \<Rightarrow> bool" where
  "terminal st = (st = COMPLETED \<or> st = FAILED \<or> st = SKIPPED)"

datatype store_op =
    MarkStarted string SyncAction
  | MarkCompleted string int string
  | MarkFailed string string
  | MarkSkipped string "int option"

fun apply_op :: "store_op \<Rightarrow> StateManager \<Rightarrow> unit result \<times> StateManager" where
  "apply_op (MarkStarted k a) m = mark_started m k a"
| "apply_op (MarkCompleted k n h) m = mark_completed m k n h"
| "apply_op (MarkFailed k e) m = mark_failed m k e"
| "apply_op (MarkSkipped k n) m = mark_skipped m k n"

fun starts :: "store_op \<Rightarrow> string \<Rightarrow> bool" where
  "starts (MarkStarted k a) issue_id = (k = issue_id)"
| "starts _ issue_id = False"

definition fresh_manager :: StateManager where
  "fresh_manager =
     \<lparr>state_file = None, priv_state = None, utcnow = 0,
      uuid4 = ''0f8fad5b-d9cb-469f-a165-70867728950e''\<rparr>"


section \<open>loader.py: IssueLoader\<close>

text \<open>
  The loader reads files; \<open>IssueLoader\<close> holds what its three reads return (or raise)
  during the run, and \<open>stack_room\<close>: how many nested calls the interpreter still allows
  when \<open>topological_sort\<close> runs (its recursion limit less the frames in use).
\<close>

record LabelDef =
  l_name :: string
  l_color :: string
  l_description :: string

record MilestoneDef =
  m_title :: string
  m_description :: string

record IssueLoader =
  load_all_issues :: "Issue list result"
  load_labels :: "LabelDef list result"
  load_milestones :: "MilestoneDef list result"
  stack_room :: nat





section \<open>github.py: the client\<close>

record GitHubIssue =
  gh_number :: int
  gh_title :: string
  gh_body :: string
  gh_state :: string
  gh_labels :: "string list"
  gh_milestone_number :: "int option"

record GitHubMilestone =
  ghm_number :: int
  ghm_title :: string
  ghm_state :: string

record GitHubLabel =
  ghl_name :: string
  ghl_color :: string
  ghl_description :: string

text \<open>
  The syncer calls either client through the same seven methods.  A client is a state of
  type \<open>'c\<close> and these methods as functions that return the outcome of the call and the
  next state; \<open>GitHubClient\<close>, whose outcomes are those of the network, is any such record.
\<close>

record 'c client =
  list_milestones :: "'c \<Rightarrow> GitHubMilestone list result \<times> 'c"
  list_labels :: "'c \<Rightarrow> GitHubLabel list result \<times> 'c"
  list_issues :: "'c \<Rightarrow> GitHubIssue list result \<times> 'c"
  create_issue ::
    "'c \<Rightarrow> string \<Rightarrow> string \<Rightarrow> string list \<Rightarrow> int option \<Rightarrow> GitHubIssue result \<times> 'c"
  update_issue ::
    "'c \<Rightarrow> int \<Rightarrow> string option \<Rightarrow> string option \<Rightarrow> string list option \<Rightarrow> int option
       \<Rightarrow> string option \<Rightarrow> GitHubIssue result \<times> 'c"
  create_milestone :: "'c \<Rightarrow> string \<Rightarrow> string \<Rightarrow> GitHubMilestone result \<times> 'c"
  create_label :: "'c \<Rightarrow> string \<Rightarrow> string \<Rightarrow> string \<Rightarrow> GitHubLabel result \<times> 'c"

text \<open>\<open>DryRunClient\<close>: all state in memory, numbers counted up from 1000 and 100.\<close>

record DryRunClient =
  d_issue_counter :: int
  d_milestone_counter :: int
  d_issues :: "(int \<times> GitHubIssue) list"
  d_milestones :: "(string \<times> GitHubMilestone) list"
  d_labels :: "(string \<times> GitHubLabel) list"

definition new_DryRunClient :: DryRunClient where
  "new_DryRunClient =
     \<lparr>d_issue_counter = 1000, d_milestone_counter = 100, d_issues = [], d_milestones = [],
      d_labels = []\<rparr>"






section \<open>sync.py: SyncPlan and IssueSyncer\<close>

record SyncPlan =
  creates :: "Issue list"
  updates :: "(Issue \<times> int) list"
  skips :: "(Issue \<times> int) list"

definition total :: "SyncPlan \<Rightarrow> nat" where
  "total plan = length (creates plan) + length (updates plan) + length (skips plan)"






text \<open>
  The syncer's three caches, and the world a run acts on: the client's state, the
  syncer and the state manager.  Console output is left out.
\<close>

record IssueSyncer =
  s_milestones :: "(string \<times> int) list"
  s_labels :: "string set"
  s_existing_issues :: "(string \<times> int \<times> string) list"

definition new_IssueSyncer :: IssueSyncer where
  "new_IssueSyncer = \<lparr>s_milestones = [], s_labels = {}, s_existing_issues = []\<rparr>"

record 'c world =
  w_client :: 'c
  w_syncer :: IssueSyncer
  w_state :: StateManager


text \<open>\<open>StateManager.needs_sync\<close> reaches the state (loading it when it is not loaded).\<close>

definition manager_needs_sync :: "StateManager \<Rightarrow> Issue \<Rightarrow> bool result \<times> StateManager" where
  "manager_needs_sync m issue =
     (case state_get m of
        (Inl e, m1) \<Rightarrow> (Inl e, m1)
      | (Inr s, m1) \<Rightarrow> (Inr (needs_sync s issue), m1))"

definition content_changed ::
  "StateManager \<Rightarrow> Issue \<Rightarrow> string \<Rightarrow> bool result \<times> StateManager" where
  "content_changed m issue existing_body =
     (let current_hash = content_hash issue
      in if contains (''Content Hash: `'' @ current_hash @ ''`'') existing_body
         then (Inr False, m)
         else manager_needs_sync m issue)"

fun plan_loop ::
  "IssueSyncer \<Rightarrow> bool \<Rightarrow> Issue list \<Rightarrow> SyncPlan \<Rightarrow> StateManager
     \<Rightarrow> SyncPlan result \<times> StateManager" where
  "plan_loop sy force [] plan m = (Inr plan, m)"
| "plan_loop sy force (issue # rest) plan m =
     (case map_of (s_existing_issues sy) (i_id issue) of
        None \<Rightarrow> plan_loop sy force rest (plan\<lparr>creates := creates plan @ [issue]\<rparr>) m
      | Some existing \<Rightarrow>
          (if force
           then plan_loop sy force rest
                  (plan\<lparr>updates := updates plan @ [(issue, fst existing)]\<rparr>) m
           else (case content_changed m issue (snd existing) of
                   (Inl e, m1) \<Rightarrow> (Inl e, m1)
                 | (Inr changed, m1) \<Rightarrow>
                     (if changed
                      then plan_loop sy force rest
                             (plan\<lparr>updates := updates plan @ [(issue, fst existing)]\<rparr>) m1
                      else plan_loop sy force rest
                             (plan\<lparr>skips := skips plan @ [(issue, fst existing)]\<rparr>) m1))))"

definition build_plan ::
  "IssueSyncer \<Rightarrow> StateManager \<Rightarrow> Issue list \<Rightarrow> bool \<Rightarrow> SyncPlan result \<times> StateManager" where
  "build_plan sy m issues force =
     plan_loop sy force issues \<lparr>creates = [], updates = [], skips = []\<rparr> m"


definition render_issue_refs :: "IssueSyncer \<Rightarrow> string \<Rightarrow> string list \<Rightarrow> string" where
  "render_issue_refs sy label issue_ids =
     ''**'' @ label @ '':** ''
     @ join '', ''
         (map (\<lambda>issue_id.
                 case map_of (s_existing_issues sy) issue_id of
                   Some existing \<Rightarrow> ''#'' @ str_int (fst existing)
                 | None \<Rightarrow> ''`'' @ issue_id @ ''`'') issue_ids)"

definition render_body :: "rendering \<Rightarrow> IssueSyncer \<Rightarrow> Issue \<Rightarrow> string result" where
  "render_body R sy issue =
     (case to_markdown R issue of
        Inl e \<Rightarrow> Inl e
      | Inr b0 \<Rightarrow>
          (let b1 = (if i_depends_on issue \<noteq> []
                     then render_issue_refs sy ''Depends On'' (i_depends_on issue)
                          @ ''\<newline>\<newline>'' @ b0
                     else b0);
               b2 = (if i_blocks issue \<noteq> []
                     then render_issue_refs sy ''Blocks'' (i_blocks issue)
                          @ ''\<newline>\<newline>'' @ b1
                     else b1);
               b3 = (if i_children issue \<noteq> []
                     then b2 @ ''\<newline>\<newline>''
                          @ render_issue_refs sy ''Child Issues'' (i_children issue)
                     else b2)
           in Inr b3))"





definition syncer_skip_issue :: "Issue \<Rightarrow> int \<Rightarrow> 'c world \<Rightarrow> unit result \<times> 'c world" where
  "syncer_skip_issue issue number w =
     (case mark_started (w_state w) (i_id issue) SKIP of
        (Inl e, m1) \<Rightarrow> (Inl e, w\<lparr>w_state := m1\<rparr>)
      | (Inr u, m1) \<Rightarrow>
          (case mark_skipped m1 (i_id issue) (Some number) of
             (Inl e, m2) \<Rightarrow> (Inl e, w\<lparr>w_state := m2\<rparr>)
           | (Inr u, m2) \<Rightarrow> (Inr (), w\<lparr>w_state := m2\<rparr>)))"





fun label_loop :: "'c client \<Rightarrow> LabelDef list \<Rightarrow> 'c world \<Rightarrow> unit result \<times> 'c world" where
  "label_loop C [] w = (Inr (), w)"
| "label_loop C (label_def # rest) w =
     (if l_name label_def \<notin> s_labels (w_syncer w)
      then (case create_label C (w_client w) (l_name label_def) (l_color label_def)
                   (l_description label_def) of
              (Inl e, c1) \<Rightarrow> (Inl e, w\<lparr>w_client := c1\<rparr>)
            | (Inr label, c1) \<Rightarrow>
                label_loop C rest
                  (w\<lparr>w_client := c1,
                     w_syncer := (w_syncer w)
                       \<lparr>s_labels := insert (l_name label_def) (s_labels (w_syncer w))\<rparr>\<rparr>))
      else label_loop C rest w)"

definition ensure_labels ::
  "'c client \<Rightarrow> IssueLoader \<Rightarrow> 'c world \<Rightarrow> unit result \<times> 'c world" where
  "ensure_labels C L w =
     (case load_labels L of
        Inl e \<Rightarrow> (Inl e, w)
      | Inr defined \<Rightarrow> label_loop C defined w)"

fun milestone_loop ::
  "'c client \<Rightarrow> MilestoneDef list \<Rightarrow> 'c world \<Rightarrow> unit result \<times> 'c world" where
  "milestone_loop C [] w = (Inr (), w)"
| "milestone_loop C (ms_def # rest) w =
     (if map_of (s_milestones (w_syncer w)) (m_title ms_def) = None
      then (case create_milestone C (w_client w) (m_title ms_def) (m_description ms_def) of
              (Inl e, c1) \<Rightarrow> (Inl e, w\<lparr>w_client := c1\<rparr>)
            | (Inr milestone, c1) \<Rightarrow>
                milestone_loop C rest
                  (w\<lparr>w_client := c1,
                     w_syncer := (w_syncer w)
                       \<lparr>s_milestones :=
                          AList.update (m_title ms_def) (ghm_number milestone)
                            (s_milestones (w_syncer w))\<rparr>\<rparr>))
      else milestone_loop C rest w)"

definition ensure_milestones ::
  "'c client \<Rightarrow> IssueLoader \<Rightarrow> 'c world \<Rightarrow> unit result \<times> 'c world" where
  "ensure_milestones C L w =
     (case load_milestones L of
        Inl e \<Rightarrow> (Inl e, w)
      | Inr defined \<Rightarrow> milestone_loop C defined w)"



section \<open>Example data\<close>

text \<open>
  \<open>story k d deps\<close> is an issue with id \<open>k\<close>, description \<open>d\<close> and dependencies
  \<open>deps\<close>, every optional field empty; \<open>marked_body\<close> is a remote body that carries the
  id marker and the hash marker of an issue.
\<close>

definition story :: "string \<Rightarrow> string \<Rightarrow> string list \<Rightarrow> Issue" where
  "story k d deps =
     \<lparr>i_id = k, i_title = ''T'', i_type = ''story'', i_status = ''open'',
      i_priority = ''P1'', i_labels = [], i_milestone = [], i_description = d,
      i_acceptance_criteria = [], i_epic = None, i_depends_on = deps, i_blocks = [],
      i_user_story = None, i_technical_context = [], i_state_machine = None,
      i_out_of_scope = [], i_open_questions = [], i_estimate = None, i_children = [],
      i_goals = [], i_design_principles = [], i_visual_mockups = None,
      i_interaction_patterns = None, i_responsive_behavior = None, i_source_file = None,
      i_github_number = None\<rparr>"

definition marked_body :: "Issue \<Rightarrow> string" where
  "marked_body issue =
     ''**'' @ i_id issue @ ''**\<newline>\<newline>---\<newline>*Content Hash: `'' @ content_hash issue @ ''`*''"










text \<open>
  For stating where the markers stand in a body: the first and the last line of a text
  (lines end at \<open>\n\<close>), the bolded id and the hash marker of an issue, the lower-case
  hexadecimal digits.
\<close>

definition first_line :: "string \<Rightarrow> string" where
  "first_line s = takeWhile (\<lambda>c. c \<noteq> CHR 0x0A) s"

definition last_line :: "string \<Rightarrow> string" where
  "last_line s = rev (takeWhile (\<lambda>c. c \<noteq> CHR 0x0A) (rev s))"

definition id_marker :: "Issue \<Rightarrow> string" where
  "id_marker issue = ''**'' @ i_id issue @ ''**''"

definition hash_marker :: "Issue \<Rightarrow> string" where
  "hash_marker issue = ''*Content Hash: `'' @ content_hash issue @ ''`*''"

definition is_hex :: "char \<Rightarrow> bool" where
  "is_hex c = (c \<in> set ''0123456789abcdef'')"

text \<open>\<open>with_children issue cs\<close> is \<open>issue\<close> with the children \<open>cs\<close>.\<close>

definition with_children :: "Issue \<Rightarrow> string list \<Rightarrow> Issue" where
  "with_children issue cs = issue\<lparr>i_children := cs\<rparr>"

text \<open>
  \<open>traverse\<close> and \<open>traverse_each\<close> are \<open>visit\<close> and \<open>visit_each\<close> without the count of
  nested calls: what they return whenever they return (lemma \<open>visit_traverse\<close>).  They
  serve the proofs about the order only; \<open>traversal\<close> is the order they give.
\<close>

function traverse ::
  "(string \<times> Issue) list \<Rightarrow> string \<Rightarrow> string set \<times> Issue list \<Rightarrow> string set \<times> Issue list"
  and traverse_each ::
  "(string \<times> Issue) list \<Rightarrow> string list \<Rightarrow> string set \<times> Issue list
     \<Rightarrow> string set \<times> Issue list"
where
  "traverse ids issue_id st =
     (if issue_id \<in> fst st then st
      else (case map_of ids issue_id of
              None \<Rightarrow> (insert issue_id (fst st), snd st)
            | Some issue \<Rightarrow>
                (let st1 = traverse_each ids (i_depends_on issue)
                             (insert issue_id (fst st), snd st);
                     st2 = (case i_epic issue of
                              None \<Rightarrow> st1
                            | Some epic \<Rightarrow> if epic \<noteq> [] then traverse ids epic st1 else st1)
                 in (fst st2, snd st2 @ [issue]))))"
| "traverse_each ids [] st = st"
| "traverse_each ids (d # ds) st = traverse_each ids ds (traverse ids d st)"
  by pat_completeness auto

lemma card_unvisited_le:
  "V \<subseteq> V' \<Longrightarrow> card (fst ` set ids - V') \<le> card (fst ` set ids - V)"
  by (rule card_mono) auto

lemma card_unvisited_less:
  assumes "insert x V \<subseteq> V'" and "x \<notin> V" and "map_of ids x = Some i"
  shows "card (fst ` set ids - V') < card (fst ` set ids - V)"
proof (rule psubset_card_mono)
  show "finite (fst ` set ids - V)" by simp
  have "x \<in> fst ` set ids" using assms(3) by (force dest: map_of_SomeD)
  then have "x \<in> fst ` set ids - V" "x \<notin> fst ` set ids - V'" using assms by auto
  then show "fst ` set ids - V' \<subset> fst ` set ids - V" using assms(1) by blast
qed

lemma visit_mono:
  "traverse_traverse_each_dom (Inl (ids, x, st)) \<Longrightarrow> fst st \<subseteq> fst (traverse ids x st)"
  "traverse_traverse_each_dom (Inr (ids, xs, st)) \<Longrightarrow> fst st \<subseteq> fst (traverse_each ids xs st)"
proof (induct rule: traverse_traverse_each.pinduct)
  case (1 ids issue_id st)
  show ?case
  proof (cases "issue_id \<in> fst st")
    case True
    with 1(1) show ?thesis by (simp add: traverse.psimps)
  next
    case False
    show ?thesis
    proof (cases "map_of ids issue_id")
      case None
      with 1(1) False show ?thesis by (auto simp: traverse.psimps)
    next
      case (Some issue)
      let ?st1 = "traverse_each ids (i_depends_on issue) (insert issue_id (fst st), snd st)"
      have a: "insert issue_id (fst st) \<subseteq> fst ?st1"
        using 1(2) [OF False Some] by simp
      have b: "i_epic issue = Some epic \<Longrightarrow> epic \<noteq> [] \<Longrightarrow>
                 fst ?st1 \<subseteq> fst (traverse ids epic ?st1)" for epic
        using 1(3) [OF False Some refl] by simp
      from a b 1(1) False Some show ?thesis
        by (auto simp: traverse.psimps Let_def split: option.splits)
    qed
  qed
next
  case (2 ids st)
  then show ?case by (simp add: traverse_each.psimps)
next
  case (3 ids d ds st)
  then show ?case by (auto simp: traverse_each.psimps)
qed

termination traverse
proof (relation "inv_image (less_than <*lex*> less_than)
           (\<lambda>x. case x of
                   Inl (ids, issue_id, st) \<Rightarrow> (card (fst ` set ids - fst st), 0)
                 | Inr (ids, xs, st) \<Rightarrow> (card (fst ` set ids - fst st), Suc (length xs)))",
       goal_cases)
  case 1
  show ?case by (intro wf_inv_image wf_lex_prod wf_less_than)
next
  case (2 ids issue_id st issue)
  from card_unvisited_less [OF subset_refl 2(1) 2(2)]
  show ?case by simp
next
  case (3 ids issue_id st issue st1 epic)
  then have "insert issue_id (fst st) \<subseteq> fst st1"
    using visit_mono(2) [of ids "i_depends_on issue" "(insert issue_id (fst st), snd st)"]
    by simp
  from card_unvisited_less [OF this 3(1) 3(2)] show ?case by simp
next
  case (4 ids d ds st)
  show ?case by simp
next
  case (5 ids d ds st)
  from card_unvisited_le [OF visit_mono(1) [OF 5]]
  show ?case by (auto simp: le_less)
qed


















section \<open>Properties of the state store\<close>

lemma state_get_loaded: "priv_state m = Some s \<Longrightarrow> state_get m = (Inr s, m)"
  by (simp add: state_get_def)

lemma state_get_loadable:
  assumes "loadable m"
  shows "\<exists>s m'. state_get m = (Inr s, m') \<and> priv_state m' = Some s \<and>
           (\<forall>k. map_of (records s) k = record_of m k) \<and> state_file m' = state_file m \<and>
           utcnow m \<le> utcnow m' \<and> uuid4 m' = uuid4 m"
  using assms
  by (auto simp: loadable_def record_of_def state_get_def load_or_create_def read_utcnow_def
      split: option.splits stored.splits)

lemma state_get_raises:
  "(fst (state_get m) = Inl e) = (priv_state m = None \<and> state_file m = Some (Corrupt e))"
  by (auto simp: state_get_def load_or_create_def read_utcnow_def
      split: option.splits stored.splits)

lemma loadable_iff: "loadable m = (\<forall>e. fst (state_get m) \<noteq> Inl e)"
  by (auto simp: loadable_def state_get_raises split: option.splits stored.splits)

lemma loadable_utcnow [simp]: "loadable (m\<lparr>utcnow := t\<rparr>) = loadable m"
  by (simp add: loadable_def split: option.splits stored.splits)

lemma record_of_utcnow [simp]: "record_of (m\<lparr>utcnow := t\<rparr>) k = record_of m k"
  by (simp add: record_of_def split: option.splits stored.splits)

lemma mark_started_loadable:
  assumes "loadable m"
  shows "\<exists>s m'. mark_started m k a = (Inr (), m') \<and> priv_state m' = Some s \<and>
           map_of (records s) k =
             Some \<lparr>r_issue_id = k, r_action = a, r_status = IN_PROGRESS, r_github_number = None,
                   r_content_hash = None, r_error = None, r_timestamp = utcnow m\<rparr> \<and>
           (\<forall>j. j \<noteq> k \<longrightarrow> map_of (records s) j = record_of m j)"
proof -
  have "loadable (m\<lparr>utcnow := Suc (utcnow m)\<rparr>)"
    using assms by simp
  from state_get_loadable [OF this] obtain s m1 where
    g: "state_get (m\<lparr>utcnow := Suc (utcnow m)\<rparr>) = (Inr s, m1)" and
    l: "priv_state m1 = Some s" and
    r: "\<forall>k. map_of (records s) k = record_of (m\<lparr>utcnow := Suc (utcnow m)\<rparr>) k"
    by blast
  show ?thesis
    using g l r
    by (simp add: mark_started_def read_utcnow_def save_def state_get_loaded
        AList.update_conv')
qed



lemma mark_skipped_loaded:
  assumes "priv_state m = Some s"
  shows "mark_skipped m k n =
     (case map_of (records s) k of
        None \<Rightarrow> (Inr (), m\<lparr>state_file := Some (Stored s)\<rparr>)
      | Some r \<Rightarrow>
          (let s' = s\<lparr>records := AList.update k
                      (r\<lparr>r_status := SKIPPED, r_github_number := n,
                         r_timestamp := utcnow m\<rparr>) (records s)\<rparr>
           in (Inr (), m\<lparr>utcnow := Suc (utcnow m), priv_state := Some s',
                          state_file := Some (Stored s')\<rparr>)))"
  using assms
  by (simp add: mark_skipped_def read_utcnow_def save_def state_get_loaded Let_def
      split: option.splits)

lemma mark_started_loaded:
  assumes "priv_state m = Some s"
  shows "mark_started m k a =
     (let s' = s\<lparr>records := AList.update k
                 \<lparr>r_issue_id = k, r_action = a, r_status = IN_PROGRESS,
                  r_github_number = None, r_content_hash = None, r_error = None,
                  r_timestamp = utcnow m\<rparr> (records s)\<rparr>
      in (Inr (), m\<lparr>utcnow := Suc (utcnow m), priv_state := Some s',
                     state_file := Some (Stored s')\<rparr>))"
  using assms
  by (simp add: mark_started_def read_utcnow_def save_def state_get_loaded Let_def)

lemmas store_defs =
  mark_started_def mark_completed_def mark_failed_def mark_skipped_def
  read_utcnow_def state_get_def load_or_create_def save_def Let_def

text \<open>
  Claim C9, as stated, fails: \<open>mark_started\<close> is one of the four operations, and it stores
  a new \<open>in_progress\<close> record under the id whatever record was there.  Here the record of
  \<open>A-1\<close> is \<open>completed\<close> and the next \<open>mark_started\<close> returns it to \<open>in_progress\<close>.
\<close>

theorem mark_started_reverts_completed:
  "status_of (snd (mark_completed (snd (mark_started fresh_manager ''A-1'' CREATE))
       ''A-1'' 1001 ''3f2a9c0d1e4b5a67'')) ''A-1'' = Some COMPLETED \<and>
   status_of (snd (mark_started (snd (mark_completed
       (snd (mark_started fresh_manager ''A-1'' CREATE))
       ''A-1'' 1001 ''3f2a9c0d1e4b5a67'')) ''A-1'' UPDATE)) ''A-1'' = Some IN_PROGRESS"
  by (simp add: status_of_def record_of_def fresh_manager_def store_defs)

text \<open>
  Claim C9, amended: a record whose status is completed, failed or skipped keeps a status
  among these three under \<open>mark_completed\<close>, \<open>mark_failed\<close> and \<open>mark_skipped\<close> (for any
  id) and under \<open>mark_started\<close> for another id; \<open>mark_started\<close> for the same id begins a
  new action and replaces the record by one that is \<open>in_progress\<close>.
\<close>

theorem terminal_status_kept:
  assumes "status_of m k = Some st" and "terminal st"
  shows "(\<not> starts op k \<longrightarrow>
            (\<exists>st'. status_of (snd (apply_op op m)) k = Some st' \<and> terminal st')) \<and>
         status_of (snd (mark_started m k a)) k = Some IN_PROGRESS"
proof (intro conjI impI)
  assume "\<not> starts op k"
  with assms show "\<exists>st'. status_of (snd (apply_op op m)) k = Some st' \<and> terminal st'"
    by (cases op)
      (auto simp: status_of_def record_of_def store_defs terminal_def AList.update_conv'
        split: option.splits prod.splits sum.splits stored.splits)
next
  from assms show "status_of (snd (mark_started m k a)) k = Some IN_PROGRESS"
    by (auto simp: status_of_def record_of_def store_defs AList.update_conv'
        split: option.splits stored.splits)
qed

theorem terminal_status_kept_witness:
  "status_of (snd (mark_completed (snd (mark_started fresh_manager ''A-1'' CREATE))
       ''A-1'' 1001 ''3f2a9c0d1e4b5a67'')) ''A-1'' = Some COMPLETED \<and>
   terminal COMPLETED \<and>
   \<not> starts (MarkFailed ''A-1'' ''boom'') ''A-1'' \<and>
   (\<exists>st'. status_of (snd (apply_op (MarkFailed ''A-1'' ''boom'')
       (snd (mark_completed (snd (mark_started fresh_manager ''A-1'' CREATE))
          ''A-1'' 1001 ''3f2a9c0d1e4b5a67'')))) ''A-1'' = Some st' \<and> terminal st')"
proof -
  let ?m = "snd (mark_completed (snd (mark_started fresh_manager ''A-1'' CREATE))
       ''A-1'' 1001 ''3f2a9c0d1e4b5a67'')"
  have h1: "status_of ?m ''A-1'' = Some COMPLETED"
    by (simp add: status_of_def record_of_def fresh_manager_def store_defs)
  have h2: "terminal COMPLETED"
    by (simp add: terminal_def)
  have h3: "\<not> starts (MarkFailed ''A-1'' ''boom'') ''A-1''"
    by simp
  from terminal_status_kept [OF h1 h2, of "MarkFailed ''A-1'' ''boom''"] h1 h2 h3
  show ?thesis by blast
qed

text \<open>
  Claim C7, as stated, fails: \<open>_load_or_create\<close> has no handler, so what \<open>json.loads\<close>
  or \<open>from_dict\<close> raises on the text of an existing file leaves \<open>StateManager.state\<close>.
  Here the file exists and is empty, and \<open>json.loads\<close> raises \<open>JSONDecodeError\<close>.
\<close>

theorem corrupt_state_file_raises:
  "fst (state_get \<lparr>state_file = Some (Corrupt (PyExc ''JSONDecodeError''
          ''Expecting value: line 1 column 1 (char 0)'')),
        priv_state = None, utcnow = 0, uuid4 = ''0f8fad5b-d9cb-469f-a165-70867728950e''\<rparr>)
   = Inl (PyExc ''JSONDecodeError'' ''Expecting value: line 1 column 1 (char 0)'')"
  by (simp add: state_get_def load_or_create_def)

text \<open>
  Claim C7, amended: loading the state raises exactly when the state is not yet loaded
  and the file exists but does not parse to a state, and then it raises the exception
  of the parse; a missing file is no prior run, and gives a fresh state with a new
  \<open>run_id\<close> (the first eight characters of a new uuid), \<open>started_at\<close> now, no
  \<open>completed_at\<close> and no records.
\<close>

theorem state_load_outcomes:
  "(fst (state_get m) = Inl e) = (priv_state m = None \<and> state_file m = Some (Corrupt e)) \<and>
   fst (state_get (m\<lparr>state_file := None, priv_state := None\<rparr>)) =
     Inr \<lparr>run_id = take 8 (uuid4 m), started_at = utcnow m, completed_at = None,
          records = []\<rparr>"
  by (auto simp: state_get_def load_or_create_def read_utcnow_def
      split: option.splits stored.splits)

theorem state_load_outcomes_witness:
  "fst (state_get fresh_manager) =
     Inr \<lparr>run_id = ''0f8fad5b'', started_at = 0, completed_at = None, records = []\<rparr> \<and>
   fst (state_get (fresh_manager\<lparr>state_file := Some (Corrupt (PyExc ''KeyError'' ''run_id''))\<rparr>))
     = Inl (PyExc ''KeyError'' ''run_id'')"
proof -
  have a: "fresh_manager\<lparr>state_file := None, priv_state := None\<rparr> = fresh_manager"
    by (simp add: fresh_manager_def)
  have b: "take 8 (uuid4 fresh_manager) = ''0f8fad5b''" "utcnow fresh_manager = 0"
    by (simp_all add: fresh_manager_def)
  from state_load_outcomes [of fresh_manager] a b
  have 1: "fst (state_get fresh_manager) =
     Inr \<lparr>run_id = ''0f8fad5b'', started_at = 0, completed_at = None, records = []\<rparr>"
    by simp
  from state_load_outcomes
    [of "fresh_manager\<lparr>state_file := Some (Corrupt (PyExc ''KeyError'' ''run_id''))\<rparr>"
        "PyExc ''KeyError'' ''run_id''"]
  have 2: "fst (state_get
       (fresh_manager\<lparr>state_file := Some (Corrupt (PyExc ''KeyError'' ''run_id''))\<rparr>))
     = Inl (PyExc ''KeyError'' ''run_id'')"
    by (simp add: fresh_manager_def)
  from 1 2 show ?thesis by simp
qed

section \<open>Properties of the planner\<close>

lemma contains_Nil [simp]: "contains [] s"
  by (cases s) auto

lemma contains_prefix: "prefix n s \<Longrightarrow> contains n s"
  by (cases s) auto

lemma contains_append: "contains n (a @ n @ b)"
  by (induction a) (auto intro: contains_prefix)

text \<open>
  Claim C10: executing a SKIP for an issue (\<open>mark_started\<close> with action skip, then
  \<open>mark_skipped\<close> with the remote number) replaces the record the store held for the
  issue, whatever it was: the record after it has status skipped, the remote number
  given and no content hash, and then \<open>needs_sync\<close> returns true for the issue.  The
  witness starts from a record that is completed with the current hash, for which
  \<open>needs_sync\<close> was false.
\<close>

theorem skip_replaces_record:
  assumes "loadable (w_state w)"
  shows "\<exists>w' t. syncer_skip_issue issue number w = (Inr (), w') \<and>
           record_of (w_state w') (i_id issue) =
             Some \<lparr>r_issue_id = i_id issue, r_action = SKIP, r_status = SKIPPED,
                   r_github_number = Some number, r_content_hash = None, r_error = None,
                   r_timestamp = t\<rparr> \<and>
           manager_needs_sync (w_state w') issue = (Inr True, w_state w')"
proof -
  from mark_started_loadable [OF assms, of "i_id issue" SKIP] obtain s m1 where
    a: "mark_started (w_state w) (i_id issue) SKIP = (Inr (), m1)" and
    b: "priv_state m1 = Some s" and
    c: "map_of (records s) (i_id issue) =
          Some \<lparr>r_issue_id = i_id issue, r_action = SKIP, r_status = IN_PROGRESS,
                r_github_number = None, r_content_hash = None, r_error = None,
                r_timestamp = utcnow (w_state w)\<rparr>"
    by blast
  show ?thesis
    using a b c
    by (simp add: syncer_skip_issue_def mark_skipped_loaded [OF b] record_of_def
        manager_needs_sync_def needs_sync_def state_get_loaded AList.update_conv' Let_def)
qed

theorem skip_replaces_record_witness:
  "loadable (snd (mark_completed (snd (mark_started fresh_manager ''A-1'' CREATE)) ''A-1'' 1001
       (content_hash (story ''A-1'' ''Text'' [])))) \<and>
   fst (manager_needs_sync
     (snd (mark_completed (snd (mark_started fresh_manager ''A-1'' CREATE)) ''A-1'' 1001
       (content_hash (story ''A-1'' ''Text'' [])))) (story ''A-1'' ''Text'' [])) = Inr False \<and>
   (\<exists>w'. syncer_skip_issue (story ''A-1'' ''Text'' []) 1001
       \<lparr>w_client = new_DryRunClient, w_syncer = new_IssueSyncer,
        w_state = snd (mark_completed (snd (mark_started fresh_manager ''A-1'' CREATE)) ''A-1''
          1001 (content_hash (story ''A-1'' ''Text'' [])))\<rparr> = (Inr (), w') \<and>
      map_option r_content_hash (record_of (w_state w') ''A-1'') = Some None \<and>
      manager_needs_sync (w_state w') (story ''A-1'' ''Text'' []) = (Inr True, w_state w'))"
proof -
  let ?i = "story ''A-1'' ''Text'' []"
  let ?m = "snd (mark_completed (snd (mark_started fresh_manager ''A-1'' CREATE)) ''A-1'' 1001
       (content_hash ?i))"
  let ?w = "\<lparr>w_client = new_DryRunClient, w_syncer = new_IssueSyncer, w_state = ?m\<rparr>"
  have id: "i_id ?i = ''A-1''" by (simp add: story_def)
  have l: "loadable (w_state ?w)"
    by (simp add: loadable_def fresh_manager_def store_defs)
  have n: "fst (manager_needs_sync ?m ?i) = Inr False"
    by (simp add: manager_needs_sync_def needs_sync_def fresh_manager_def store_defs id)
  from skip_replaces_record [OF l, of ?i 1001] l n show ?thesis
    by (auto simp: id)
qed

text \<open>
  Claim C2: when the remote body linked to the issue's id contains the marker of the
  issue's current hash, \<open>_content_changed\<close> returns false and leaves the state manager as
  it was (the state is not even loaded), so with \<open>force\<close> false the planner appends the
  issue to the skips and goes on with the same state manager, whatever the store holds.
\<close>

theorem marker_in_remote_body_means_skip:
  assumes "map_of (s_existing_issues sy) (i_id issue) = Some (number, text)"
    and "contains (''Content Hash: `'' @ content_hash issue @ ''`'') text"
  shows "content_changed m issue text = (Inr False, m) \<and>
         plan_loop sy False (issue # rest) plan m =
           plan_loop sy False rest (plan\<lparr>skips := skips plan @ [(issue, number)]\<rparr>) m \<and>
         build_plan sy m [issue] False =
           (Inr \<lparr>creates = [], updates = [], skips = [(issue, number)]\<rparr>, m)"
  using assms by (simp add: content_changed_def build_plan_def)

theorem marker_in_remote_body_means_skip_witness:
  "map_of (s_existing_issues
      (new_IssueSyncer\<lparr>s_existing_issues :=
         [(''A-1'', 1001, marked_body (story ''A-1'' ''Text'' []))]\<rparr>))
      (i_id (story ''A-1'' ''Text'' [])) =
     Some (1001, marked_body (story ''A-1'' ''Text'' [])) \<and>
   contains (''Content Hash: `'' @ content_hash (story ''A-1'' ''Text'' []) @ ''`'')
     (marked_body (story ''A-1'' ''Text'' [])) \<and>
   build_plan
     (new_IssueSyncer\<lparr>s_existing_issues :=
         [(''A-1'', 1001, marked_body (story ''A-1'' ''Text'' []))]\<rparr>)
     (reset fresh_manager) [story ''A-1'' ''Text'' []] False =
     (Inr \<lparr>creates = [], updates = [], skips = [(story ''A-1'' ''Text'' [], 1001)]\<rparr>,
      reset fresh_manager) \<and>
   priv_state (reset fresh_manager) = None"
proof -
  let ?i = "story ''A-1'' ''Text'' []"
  let ?sy = "new_IssueSyncer\<lparr>s_existing_issues := [(''A-1'', 1001, marked_body ?i)]\<rparr>"
  have h1: "map_of (s_existing_issues ?sy) (i_id ?i) = Some (1001, marked_body ?i)"
    by (simp add: story_def)
  have "marked_body ?i =
          (''**'' @ i_id ?i @ ''**\<newline>\<newline>---\<newline>*'') @ (''Content Hash: `'' @ content_hash ?i @ ''`'') @ ''*''"
    by (simp add: marked_body_def)
  then have h2: "contains (''Content Hash: `'' @ content_hash ?i @ ''`'') (marked_body ?i)"
    by (simp only: contains_append)
  from marker_in_remote_body_means_skip [OF h1 h2, of "reset fresh_manager"] h1 h2
  show ?thesis by (simp add: reset_def)
qed

section \<open>Properties of the executor\<close>










































section \<open>Properties of the rendered body\<close>

lemma join_Cons: "join sep (x # xs) = x @ concat (map (\<lambda>y. sep @ y) xs)"
  by (induction xs arbitrary: x) auto

lemma join_snoc: "xs \<noteq> [] \<Longrightarrow> join sep (xs @ [m]) = join sep xs @ sep @ m"
  by (cases xs) (simp_all add: join_Cons)

lemma hexdigit_is_hex: "is_hex (hexdigit n)"
proof -
  have "n mod 16 < length ''0123456789abcdef''"
    by simp
  then have "''0123456789abcdef'' ! (n mod 16) \<in> set ''0123456789abcdef''"
    by (rule nth_mem)
  then show ?thesis
    unfolding is_hex_def hexdigit_def .
qed

lemma hex32_is_hex: "c \<in> set (hex32 w) \<Longrightarrow> is_hex c"
  by (auto simp: hex32_def hexdigit_is_hex)

lemma length_hex32: "length (hex32 w) = 8"
  by (simp add: hex32_def)

lemma hexdigest_is_hex: "c \<in> set (hexdigest s) \<Longrightarrow> is_hex c"
  by (auto simp: hexdigest_def hex32_is_hex split: prod.splits)

lemma length_hexdigest: "length (hexdigest s) = 64"
  by (simp add: hexdigest_def length_hex32 split: prod.splits)

lemma length_content_hash: "length (content_hash i) = 16"
  by (simp add: content_hash_def sha256_hexdigest_def length_hexdigest)

lemma content_hash_is_hex: "c \<in> set (content_hash i) \<Longrightarrow> is_hex c"
  unfolding content_hash_def sha256_hexdigest_def
  by (blast dest: in_set_takeD hexdigest_is_hex)

lemma hash_marker_one_line: "CHR 0x0A \<notin> set (hash_marker i)"
proof
  assume "CHR 0x0A \<in> set (hash_marker i)"
  then have "CHR 0x0A \<in> set (content_hash i)"
    by (auto simp: hash_marker_def)
  then have "is_hex (CHR 0x0A)"
    by (rule content_hash_is_hex)
  then show False
    by (simp add: is_hex_def)
qed

lemma metadata_section_ends:
  "\<exists>p. metadata_section i = p @ ''\<newline>'' @ hash_marker i"
proof -
  have ne: "hash_marker i \<noteq> []"
    by (simp add: hash_marker_def)
  show ?thesis
  proof (cases "i_source_file i")
    case None
    then have "metadata_section i = ''---'' @ ''\<newline>'' @ hash_marker i"
      using ne by (simp add: metadata_section_def hash_marker_def)
    then show ?thesis
      by blast
  next
    case (Some f)
    then have "metadata_section i
        = (''---\<newline>*Source: `'' @ f @ ''`*'') @ ''\<newline>'' @ hash_marker i"
      using ne by (simp add: metadata_section_def hash_marker_def)
    then show ?thesis
      by blast
  qed
qed

lemma header_begins: "\<exists>s. header R i = id_marker i @ s"
  by (simp add: header_def id_marker_def join_Cons)

lemma sections_of_ends:
  "sections_of (xs @ [Some (Inr m)]) = Inr ss \<Longrightarrow> \<exists>ms. ss = ms @ [m]"
proof (induction xs arbitrary: ss rule: sections_of.induct)
  case (4 s rest)
  then show ?case
    by (auto split: sum.splits)
qed auto

lemma to_markdown_shape:
  assumes "to_markdown R i = Inr b0"
  shows "\<exists>mid. b0 = header R i @ mid @ ''\<newline>\<newline>'' @ metadata_section i"
proof -
  from assms obtain ss where
    ss: "sections_of
         ([Some (Inr (header R i)),
          Some (Inr (body i)),
          when_true (i_user_story i) (\<lambda>u. Inr (user_story_section u)),
          when_true (Some (i_acceptance_criteria i)) (acceptance_criteria_section R),
          when_true (i_state_machine i) (state_machine_section R),
          when_true (Some (i_technical_context i)) (technical_context_section R),
          when_true (i_visual_mockups i) (visual_mockups_section R),
          when_true (Some (i_out_of_scope i)) (\<lambda>x. Inr (out_of_scope_section i)),
          when_true (Some (i_open_questions i)) (\<lambda>x. Inr (open_questions_section i))]
          @ [Some (Inr (metadata_section i))]) = Inr ss"
    and b0: "b0 = join ''\<newline>\<newline>'' (filter (\<lambda>s. s \<noteq> []) ss)"
    by (auto simp: to_markdown_def split: sum.splits)
  from sections_of_ends [OF ss] obtain ms where ms: "ss = ms @ [metadata_section i]"
    by blast
  from ss obtain ms' where ms': "ss = header R i # body i # ms'"
    by (auto split: sum.splits)
  from ms ms' obtain mid where mid: "ss = header R i # mid @ [metadata_section i]"
    by (cases ms) auto
  obtain p where "metadata_section i = p @ ''\<newline>'' @ hash_marker i"
    using metadata_section_ends by blast
  then have m: "metadata_section i \<noteq> []"
    by simp
  obtain s where "header R i = id_marker i @ s"
    using header_begins by blast
  then have h: "header R i \<noteq> []"
    by (simp add: id_marker_def)
  show ?thesis
    using b0 mid h m by (simp add: join_Cons)
qed

lemma last_line_append:
  "CHR 0x0A \<notin> set m \<Longrightarrow> last_line (p @ ''\<newline>'' @ m) = m"
proof -
  assume m: "CHR 0x0A \<notin> set m"
  have "takeWhile (\<lambda>c. c \<noteq> CHR 0x0A) (rev m @ CHR 0x0A # rev p)
      = rev m @ takeWhile (\<lambda>c. c \<noteq> CHR 0x0A) (CHR 0x0A # rev p)"
    by (rule takeWhile_append2) (use m in auto)
  then show ?thesis
    by (simp add: last_line_def)
qed

lemma first_line_append:
  "CHR 0x0A \<notin> set m \<Longrightarrow> first_line (m @ s) = m @ first_line s"
proof -
  assume m: "CHR 0x0A \<notin> set m"
  have "takeWhile (\<lambda>c. c \<noteq> CHR 0x0A) (m @ s) = m @ takeWhile (\<lambda>c. c \<noteq> CHR 0x0A) s"
    by (rule takeWhile_append2) (use m in auto)
  then show ?thesis
    by (simp add: first_line_def)
qed

text \<open>
  Claim C6, as amended.  A rendered body contains the bolded id and the hash marker of the
  issue, and the hash in the marker is 16 lower-case hexadecimal digits.  The body begins
  with the bolded id when the issue has neither \<open>depends_on\<close> nor \<open>blocks\<close> (its first
  line then contains it, if the id holds no line break), and its last line is the hash
  marker when the issue has no \<open>children\<close>.
\<close>

theorem body_markers:
  assumes "render_body R sy issue = Inr b"
  shows "contains (id_marker issue) b \<and>
         contains (hash_marker issue) b \<and>
         length (content_hash issue) = 16 \<and>
         (\<forall>c\<in>set (content_hash issue). is_hex c) \<and>
         (i_depends_on issue = [] \<and> i_blocks issue = [] \<longrightarrow>
            prefix (id_marker issue) b \<and>
            (CHR 0x0A \<notin> set (i_id issue) \<longrightarrow> contains (id_marker issue) (first_line b))) \<and>
         (i_children issue = [] \<longrightarrow> last_line b = hash_marker issue)"
proof -
  from assms obtain b0 where b0: "to_markdown R issue = Inr b0"
    by (auto simp: render_body_def split: sum.splits)
  define pre where "pre =
    (if i_blocks issue \<noteq> []
     then render_issue_refs sy ''Blocks'' (i_blocks issue) @ ''\<newline>\<newline>'' else [])
    @ (if i_depends_on issue \<noteq> []
       then render_issue_refs sy ''Depends On'' (i_depends_on issue) @ ''\<newline>\<newline>'' else [])"
  define post where "post =
    (if i_children issue \<noteq> []
     then ''\<newline>\<newline>'' @ render_issue_refs sy ''Child Issues'' (i_children issue) else [])"
  have b: "b = pre @ b0 @ post"
    using assms b0 by (auto simp: render_body_def pre_def post_def Let_def)
  obtain mid where "b0 = header R issue @ mid @ ''\<newline>\<newline>'' @ metadata_section issue"
    using to_markdown_shape [OF b0] by blast
  moreover obtain s where "header R issue = id_marker issue @ s"
    using header_begins by blast
  moreover obtain p where "metadata_section issue = p @ ''\<newline>'' @ hash_marker issue"
    using metadata_section_ends by blast
  ultimately have shape:
    "b = pre @ id_marker issue @ s @ mid @ ''\<newline>\<newline>'' @ p @ ''\<newline>'' @ hash_marker issue @ post"
    using b by simp
  have 1: "contains (id_marker issue) b"
    unfolding shape by (rule contains_append)
  have "b = (pre @ id_marker issue @ s @ mid @ ''\<newline>\<newline>'' @ p @ ''\<newline>'') @ hash_marker issue @ post"
    using shape by simp
  then have 2: "contains (hash_marker issue) b"
    by (simp only: contains_append)
  have 3: "prefix (id_marker issue) b" "contains (id_marker issue) (first_line b)"
    if "i_depends_on issue = []" "i_blocks issue = []" "CHR 0x0A \<notin> set (i_id issue)"
  proof -
    from that have "pre = []"
      by (simp add: pre_def)
    with shape have e: "b = id_marker issue @ (s @ mid @ ''\<newline>\<newline>'' @ p @ ''\<newline>'' @ hash_marker issue @ post)"
      by simp
    then show "prefix (id_marker issue) b"
      by (metis prefixI)
    from that have "CHR 0x0A \<notin> set (id_marker issue)"
      by (simp add: id_marker_def)
    then have "first_line b = id_marker issue @ first_line (s @ mid @ ''\<newline>\<newline>'' @ p @ ''\<newline>'' @ hash_marker issue @ post)"
      using e first_line_append by metis
    then show "contains (id_marker issue) (first_line b)"
      using contains_append [of "id_marker issue" "[]"] by simp
  qed
  have pfx: "prefix (id_marker issue) b"
    if "i_depends_on issue = []" "i_blocks issue = []"
  proof -
    from that have "pre = []"
      by (simp add: pre_def)
    with shape have e: "b = id_marker issue @ (s @ mid @ ''\<newline>\<newline>'' @ p @ ''\<newline>'' @ hash_marker issue @ post)"
      by simp
    then show "prefix (id_marker issue) b"
      by (metis prefixI)
  qed
  have 4: "last_line b = hash_marker issue" if "i_children issue = []"
  proof -
    from that have "post = []"
      by (simp add: post_def)
    with shape have "b = (pre @ id_marker issue @ s @ mid @ ''\<newline>\<newline>'' @ p) @ ''\<newline>'' @ hash_marker issue"
      by simp
    then show ?thesis
      using last_line_append [OF hash_marker_one_line] by metis
  qed
  show ?thesis
    using 1 2 3 pfx 4 length_content_hash content_hash_is_hex by blast
qed

theorem body_markers_witness:
  "\<forall>R. \<exists>b.
     render_body R new_IssueSyncer (story ''A-1'' ''Text'' []) = Inr b \<and>
     prefix ''**A-1**'' b \<and>
     contains ''**A-1**'' (first_line b) \<and>
     last_line b = hash_marker (story ''A-1'' ''Text'' []) \<and>
     length (content_hash (story ''A-1'' ''Text'' [])) = 16"
proof
  fix R
  let ?a = "story ''A-1'' ''Text'' []"
  have rb: "render_body R new_IssueSyncer ?a
      = Inr (''**A-1**\<newline>\<newline>Text\<newline>\<newline>---\<newline>'' @ hash_marker ?a)"
    by (simp add: render_body_def to_markdown_def header_def body_def metadata_section_def
        when_true_def story_def hash_marker_def)
  have f: "i_depends_on ?a = []" "i_blocks ?a = []" "i_children ?a = []"
    "CHR 0x0A \<notin> set (i_id ?a)" "id_marker ?a = ''**A-1**''"
    by (simp_all add: story_def id_marker_def)
  from body_markers [OF rb] f
  have "prefix ''**A-1**'' (''**A-1**\<newline>\<newline>Text\<newline>\<newline>---\<newline>'' @ hash_marker ?a)"
    "contains ''**A-1**'' (first_line (''**A-1**\<newline>\<newline>Text\<newline>\<newline>---\<newline>'' @ hash_marker ?a))"
    "last_line (''**A-1**\<newline>\<newline>Text\<newline>\<newline>---\<newline>'' @ hash_marker ?a) = hash_marker ?a"
    "length (content_hash ?a) = 16"
    by simp_all
  with rb show "\<exists>b.
     render_body R new_IssueSyncer ?a = Inr b \<and>
     prefix ''**A-1**'' b \<and>
     contains ''**A-1**'' (first_line b) \<and>
     last_line b = hash_marker ?a \<and>
     length (content_hash ?a) = 16"
    by blast
qed

text \<open>
  Claim C6, as stated, fails.  The body of an issue with a dependency begins with the
  \<open>Depends On\<close> line, which does not hold the bolded id; the body of an issue with a child
  ends with the \<open>Child Issues\<close> line, which does not hold the hash marker.
\<close>

theorem cross_references_displace_markers:
  "\<forall>R. \<exists>b c.
     render_body R new_IssueSyncer (story ''B-2'' ''Text'' [''A-1'']) = Inr b \<and>
     first_line b = ''**Depends On:** `A-1`'' \<and>
     \<not> contains (id_marker (story ''B-2'' ''Text'' [''A-1''])) (first_line b) \<and>
     render_body R new_IssueSyncer (with_children (story ''E-1'' ''Text'' []) [''B-2'']) = Inr c \<and>
     last_line c = ''**Child Issues:** `B-2`'' \<and>
     \<not> contains (hash_marker (with_children (story ''E-1'' ''Text'' []) [''B-2''])) (last_line c)"
proof
  fix R
  let ?b = "story ''B-2'' ''Text'' [''A-1'']"
  let ?e = "with_children (story ''E-1'' ''Text'' []) [''B-2'']"
  have rb: "render_body R new_IssueSyncer ?b
      = Inr (''**Depends On:** `A-1`'' @ ''\<newline>'' @ ''\<newline>**B-2**\<newline>\<newline>Text\<newline>\<newline>---\<newline>'' @ hash_marker ?b)"
    by (simp add: render_body_def to_markdown_def header_def body_def metadata_section_def
        when_true_def story_def render_issue_refs_def new_IssueSyncer_def hash_marker_def)
  have re: "render_body R new_IssueSyncer ?e
      = Inr ((''**E-1**\<newline>\<newline>Text\<newline>\<newline>---\<newline>'' @ hash_marker ?e @ ''\<newline>'') @ ''\<newline>'' @ ''**Child Issues:** `B-2`'')"
    by (simp add: render_body_def to_markdown_def header_def body_def metadata_section_def
        when_true_def story_def render_issue_refs_def new_IssueSyncer_def hash_marker_def
        with_children_def)
  have fl: "first_line (''**Depends On:** `A-1`'' @ ''\<newline>'' @ x) = ''**Depends On:** `A-1`''" for x
    by (simp add: first_line_def)
  have ll: "last_line (x @ ''\<newline>'' @ ''**Child Issues:** `B-2`'') = ''**Child Issues:** `B-2`''" for x
    by (rule last_line_append) simp
  have n1: "\<not> contains (id_marker ?b) ''**Depends On:** `A-1`''"
    by (simp add: id_marker_def story_def)
  have n2: "\<not> contains (hash_marker ?e) ''**Child Issues:** `B-2`''"
    by (simp add: hash_marker_def)
  show "\<exists>b c.
     render_body R new_IssueSyncer ?b = Inr b \<and>
     first_line b = ''**Depends On:** `A-1`'' \<and>
     \<not> contains (id_marker ?b) (first_line b) \<and>
     render_body R new_IssueSyncer ?e = Inr c \<and>
     last_line c = ''**Child Issues:** `B-2`'' \<and>
     \<not> contains (hash_marker ?e) (last_line c)"
    unfolding rb re using n1 n2 by (simp only: fl ll sum.inject simp_thms ex_simps)
qed

section \<open>Properties of the content hash\<close>











section \<open>Properties of the topological sort\<close>

declare traverse.simps [simp del]




































section \<open>Properties of two runs in succession\<close>










lemma label_loop_keeps:
  "label_loop C ds w = (r, w') \<Longrightarrow>
     s_existing_issues (w_syncer w') = s_existing_issues (w_syncer w) \<and> w_state w' = w_state w"
proof (induction ds arbitrary: w)
  case Nil
  then show ?case by simp
next
  case (Cons d ds)
  show ?case
  proof (cases "l_name d \<notin> s_labels (w_syncer w)")
    case False
    with Cons show ?thesis by simp
  next
    case True
    obtain rc c1 where c: "create_label C (w_client w) (l_name d) (l_color d) (l_description d)
        = (rc, c1)"
      by (meson surj_pair)
    show ?thesis
    proof (cases rc)
      case (Inl e)
      with Cons.prems True c show ?thesis by auto
    next
      case (Inr label)
      with Cons.prems True c have "label_loop C ds
          (w\<lparr>w_client := c1,
             w_syncer := (w_syncer w)\<lparr>s_labels := insert (l_name d) (s_labels (w_syncer w))\<rparr>\<rparr>)
          = (r, w')"
        by simp
      from Cons.IH [OF this] show ?thesis by simp
    qed
  qed
qed

lemma milestone_loop_keeps:
  "milestone_loop C ds w = (r, w') \<Longrightarrow>
     s_existing_issues (w_syncer w') = s_existing_issues (w_syncer w) \<and> w_state w' = w_state w"
proof (induction ds arbitrary: w)
  case Nil
  then show ?case by simp
next
  case (Cons d ds)
  show ?case
  proof (cases "map_of (s_milestones (w_syncer w)) (m_title d) = None")
    case False
    with Cons show ?thesis by simp
  next
    case True
    obtain rc c1 where c: "create_milestone C (w_client w) (m_title d) (m_description d) = (rc, c1)"
      by (meson surj_pair)
    show ?thesis
    proof (cases rc)
      case (Inl e)
      with Cons.prems True c show ?thesis by auto
    next
      case (Inr milestone)
      with Cons.prems True c have "milestone_loop C ds
          (w\<lparr>w_client := c1,
             w_syncer := (w_syncer w)\<lparr>s_milestones :=
               AList.update (m_title d) (ghm_number milestone) (s_milestones (w_syncer w))\<rparr>\<rparr>)
          = (r, w')"
        by simp
      from Cons.IH [OF this] show ?thesis by simp
    qed
  qed
qed

lemma ensure_keeps:
  "ensure_labels C L w = (r, w') \<Longrightarrow>
     s_existing_issues (w_syncer w') = s_existing_issues (w_syncer w) \<and> w_state w' = w_state w"
  "ensure_milestones C L w = (r, w') \<Longrightarrow>
     s_existing_issues (w_syncer w') = s_existing_issues (w_syncer w) \<and> w_state w' = w_state w"
  using label_loop_keeps [of C _ w r w'] milestone_loop_keeps [of C _ w r w']
  by (auto simp: ensure_labels_def ensure_milestones_def split: sum.splits)













section \<open>Two issues with one content hash\<close>




end
